theory Spec2Isabelle
  imports Main
begin

section \<open>The autonomous agent of next/src/components/AutonomousAgent.ts\<close>

text \<open>
  The class \<open>AutonomousAgent\<close> drives one goal: it asks the backend for tasks, executes
  the oldest pending task, asks for follow-up tasks and calls itself again. The class is
  embedded as a record that is passed through every method and returned updated. The
  \<open>await\<close>s of the source are sequential here: nothing else touches the agent or the
  stores while a request or a delay is pending, and the delays themselves
  (\<open>TIMEOUT_LONG\<close>, \<open>TIMOUT_SHORT\<close>) change no state.
\<close>

subsection \<open>Data\<close>

datatype AgentMode = AUTOMATIC_MODE | PAUSE_MODE

datatype AgentPlaybackControl = AGENT_PLAY | AGENT_PAUSE

datatype TaskStatus =
  TASK_STATUS_STARTED | TASK_STATUS_EXECUTING | TASK_STATUS_COMPLETED | TASK_STATUS_FINAL

text \<open>
  A task is a message of type \<open>MESSAGE_TYPE_TASK\<close> with an id, a value, a status and,
  once executed, the result under \<open>info\<close>. The ids of \<open>v1()\<close> are numbered in the
  order in which they are handed out. \<open>MESSAGE_UNTYPED\<close> is a message that has a status
  and nothing else, not even a type: what \<open>{...undefined, status: s}\<close> is.
\<close>

record Task =
  taskId :: nat
  val :: string
  status :: TaskStatus
  info :: "string option"

datatype Message =
  MESSAGE_TYPE_GOAL string
  | MESSAGE_TYPE_THINKING string
  | MESSAGE_TYPE_SYSTEM string
  | MESSAGE_TYPE_TASK Task
  | MESSAGE_UNTYPED TaskStatus

record Analysis =
  reasoning :: string
  action :: string
  arg :: string

record ModelSettings =
  customMaxLoops :: "int option"

text \<open>
  What a rejected request throws: an axios error with the status of its response (none
  when there was no response), or anything else. \<open>TypeError\<close> is what reading a field
  of \<open>undefined\<close> throws.
\<close>

datatype thrown = AxiosError "nat option" | OtherError | TypeError

text \<open>
  The agent with the collaborators it talks to. The first eight fields are the fields of
  the class (\<open>session\<close> and \<open>_id\<close> are never read and are left out). The others are
  the world around it: \<open>messages\<close> is everything \<open>renderMessage\<close> has received,
  \<open>tasks\<close> is the task list of \<open>useMessageStore\<close>, \<open>isWebSearchEnabled\<close> the flag of
  \<open>useAgentStore\<close>, \<open>shutdowns\<close> counts the calls of the \<open>shutdown\<close> hook,
  \<open>pauses\<close> lists the arguments of the calls of \<open>handlePause\<close>, \<open>uuids\<close> counts the
  ids handed out by \<open>v1()\<close> and \<open>requests\<close> the requests sent to the backend. Two
  fields only observe: \<open>deliveredWhile\<close> lists, for every call of \<open>renderMessage\<close>,
  the running flag at the time of the call, and \<open>decompositions\<close> counts the requests
  for the initial decomposition (\<open>getInitialTasks\<close>).
\<close>

record agent =
  name :: string
  goal :: string
  completedTasks :: "string list"
  modelSettings :: ModelSettings
  isRunning :: bool
  numLoops :: nat
  mode :: AgentMode
  playbackControl :: AgentPlaybackControl
  messages :: "Message list"
  tasks :: "Task list"
  isWebSearchEnabled :: bool
  shutdowns :: nat
  pauses :: "AgentPlaybackControl list"
  uuids :: nat
  requests :: nat
  deliveredWhile :: "bool list"
  decompositions :: nat

text \<open>
  \<open>DEFAULT_MAX_LOOPS_FREE\<close> and \<open>translate\<close> are imported from files that are not
  among the sources; they are parameters, the first two fields of \<open>env\<close>.
\<close>

text \<open>
  Modelled from the spec: the Execution Backend contract, the four requests of
  \<open>AgentApi\<close> (the class is not part of the sources). Each request returns its result
  or fails with what it throws; the first argument is the number of requests sent before
  it, so that the backend may answer the same request differently each time.
\<close>

record env =
  DEFAULT_MAX_LOOPS_FREE :: int
  translate :: "string \<Rightarrow> string \<Rightarrow> string"
  getInitialTasks :: "nat \<Rightarrow> thrown + string list"
  analyzeTask :: "nat \<Rightarrow> string \<Rightarrow> thrown + Analysis"
  executeTask :: "nat \<Rightarrow> string \<Rightarrow> Analysis \<Rightarrow> thrown + string"
  getAdditionalTasks ::
    "nat \<Rightarrow> string \<Rightarrow> string list \<Rightarrow> string list \<Rightarrow> string \<Rightarrow> thrown + string list"

subsection \<open>The constructor\<close>

text \<open>
  \<open>mode\<close> and \<open>playbackControl\<close> may be missing (\<open>None\<close>). In
  \<open>playbackControl || this.mode == PAUSE_MODE ? AGENT_PAUSE : AGENT_PLAY\<close> the
  conditional binds weaker than \<open>||\<close>: the condition is
  \<open>playbackControl || this.mode == PAUSE_MODE\<close>, and a control that is given is a
  non-empty string, hence truthy (\<open>given\<close>). The stores start empty.
\<close>

definition given :: "'a option \<Rightarrow> bool" where
  "given x = (case x of None \<Rightarrow> False | Some _ \<Rightarrow> True)"

definition constructor ::
  "string \<Rightarrow> string \<Rightarrow> ModelSettings \<Rightarrow> AgentMode option \<Rightarrow> AgentPlaybackControl option
    \<Rightarrow> bool \<Rightarrow> agent" where
  "constructor nm gl settings md control webSearch =
     (let m = (case md of None \<Rightarrow> AUTOMATIC_MODE | Some x \<Rightarrow> x) in
      \<lparr> name = nm, goal = gl, completedTasks = [], modelSettings = settings,
        isRunning = False, numLoops = 0, mode = m,
        playbackControl = (if given control \<or> m = PAUSE_MODE then AGENT_PAUSE else AGENT_PLAY),
        messages = [], tasks = [], isWebSearchEnabled = webSearch, shutdowns = 0,
        pauses = [], uuids = 0, requests = 0, deliveredWhile = [], decompositions = 0 \<rparr>)"

subsection \<open>The hooks and the stores\<close>

definition shutdown :: "agent \<Rightarrow> agent" where
  "shutdown s = s\<lparr>shutdowns := shutdowns s + 1\<rparr>"

definition handlePause :: "AgentPlaybackControl \<Rightarrow> agent \<Rightarrow> agent" where
  "handlePause c s = s\<lparr>pauses := pauses s @ [c]\<rparr>"

text \<open>
  Modelled from the spec: the Task Store behind the injected \<open>renderMessage\<close>
  (\<open>useMessageStore\<close> is not part of the sources). A task message whose id the store
  does not hold is appended in creation order; one whose id it holds mutates that
  task in place (its status, and its result when the message carries one). Nothing is
  deleted.
\<close>

definition mutate :: "Task \<Rightarrow> Task \<Rightarrow> Task" where
  "mutate t u =
     (if taskId u = taskId t
      then u\<lparr>status := status t, info := (case info t of None \<Rightarrow> info u | Some r \<Rightarrow> Some r)\<rparr>
      else u)"

definition store :: "Task \<Rightarrow> Task list \<Rightarrow> Task list" where
  "store t ts = (if taskId t \<in> set (map taskId ts) then map (mutate t) ts else ts @ [t])"

definition renderMessage :: "Message \<Rightarrow> agent \<Rightarrow> agent" where
  "renderMessage m s =
     s\<lparr>messages := messages s @ [m],
       tasks := (case m of MESSAGE_TYPE_TASK t \<Rightarrow> store t (tasks s) | _ \<Rightarrow> tasks s),
       deliveredWhile := deliveredWhile s @ [isRunning s]\<rparr>"

definition getRemainingTasks :: "agent \<Rightarrow> Task list" where
  "getRemainingTasks s = filter (\<lambda>t. status t = TASK_STATUS_STARTED) (tasks s)"

subsection \<open>Sending messages\<close>

definition sendMessage :: "Message \<Rightarrow> agent \<Rightarrow> agent" where
  "sendMessage m s = (if isRunning s then renderMessage m s else s)"

definition sendGoalMessage :: "agent \<Rightarrow> agent" where
  "sendGoalMessage s = sendMessage (MESSAGE_TYPE_GOAL (goal s)) s"

definition sendLoopMessage :: "env \<Rightarrow> agent \<Rightarrow> agent" where
  "sendLoopMessage e s =
     sendMessage (MESSAGE_TYPE_SYSTEM (translate e ''DEMO_LOOPS_REACHED'' ''errors'')) s"

definition sendManualShutdownMessage :: "env \<Rightarrow> agent \<Rightarrow> agent" where
  "sendManualShutdownMessage e s =
     sendMessage (MESSAGE_TYPE_SYSTEM (translate e ''AGENT_MANUALLY_SHUT_DOWN'' ''errors'')) s"

definition sendCompletedMessage :: "env \<Rightarrow> agent \<Rightarrow> agent" where
  "sendCompletedMessage e s =
     sendMessage (MESSAGE_TYPE_SYSTEM (translate e ''ALL_TASKS_COMPLETETD'' ''errors'')) s"

text \<open>
  The texts of \<open>sendAnalysisMessage\<close> start with an emoji, written here as the bytes
  of its UTF-8 encoding. The four tests are not exclusive in the source, but the actions
  they compare with are different strings, so the last one that holds decides.
\<close>

definition analysisText :: "Analysis \<Rightarrow> string" where
  "analysisText a =
     (let message = [CHR 0xE2, CHR 0x8F, CHR 0xB0] @ '' Generating response...'';
          message = (if action a = ''search''
            then [CHR 0xF0, CHR 0x9F, CHR 0x94, CHR 0x8D] @ '' Searching the web for \"''
              @ arg a @ ''\"...''
            else message);
          message = (if action a = ''wikipedia''
            then [CHR 0xF0, CHR 0x9F, CHR 0x8C, CHR 0x90] @ '' Searching Wikipedia for \"''
              @ arg a @ ''\"...''
            else message);
          message = (if action a = ''image''
            then [CHR 0xF0, CHR 0x9F, CHR 0x8E, CHR 0xA8]
              @ '' Generating an image with prompt: \"'' @ arg a @ ''\"...''
            else message);
          message = (if action a = ''code''
            then [CHR 0xF0, CHR 0x9F, CHR 0x92, CHR 0xBB] @ '' Writing code...''
            else message)
      in message)"

definition sendAnalysisMessage :: "Analysis \<Rightarrow> agent \<Rightarrow> agent" where
  "sendAnalysisMessage a s = sendMessage (MESSAGE_TYPE_SYSTEM (analysisText a)) s"

definition sendThinkingMessage :: "agent \<Rightarrow> agent" where
  "sendThinkingMessage s = sendMessage (MESSAGE_TYPE_THINKING []) s"

definition sendErrorMessage :: "string \<Rightarrow> agent \<Rightarrow> agent" where
  "sendErrorMessage err s = sendMessage (MESSAGE_TYPE_SYSTEM err) s"

subsection \<open>Classifying a failure of the first request\<close>

text \<open>
  In \<open>getMessageFromError\<close> the \<open>else\<close> belongs to the test for 404, the nearest
  \<open>if\<close>: the two tests are two statements, the second one assigns in both branches.
\<close>

definition isAxiosError :: "thrown \<Rightarrow> bool" where
  "isAxiosError x = (case x of AxiosError _ \<Rightarrow> True | _ \<Rightarrow> False)"

definition responseStatus :: "thrown \<Rightarrow> nat option" where
  "responseStatus x = (case x of AxiosError st \<Rightarrow> st | _ \<Rightarrow> None)"

definition getMessageFromError :: "env \<Rightarrow> thrown \<Rightarrow> string" where
  "getMessageFromError e x =
     (let message = ''ERROR_RETRIEVE_INITIAL_TASKS'';
          message =
            (if isAxiosError x then
               (let message = (if responseStatus x = Some 429 then ''ERROR_API_KEY_QUOTA''
                               else message)
                in if responseStatus x = Some 404 then ''ERROR_OPENAI_API_KEY_NO_GPT4''
                   else ''ERROR_ACCESSING_OPENAI_API_KEY'')
             else message)
      in translate e message ''errors'')"

subsection \<open>The playback controller\<close>

definition conditionalPause :: "agent \<Rightarrow> agent" where
  "conditionalPause s =
     (if mode s \<noteq> PAUSE_MODE then s
      else
        (let s1 = s\<lparr>isRunning := \<not> (playbackControl s = AGENT_PAUSE)\<rparr>
         in if playbackControl s1 = AGENT_PLAY then s1\<lparr>playbackControl := AGENT_PAUSE\<rparr>
            else s1))"

definition maxLoops :: "env \<Rightarrow> agent \<Rightarrow> int" where
  "maxLoops e s =
     (case customMaxLoops (modelSettings s) of
        None \<Rightarrow> DEFAULT_MAX_LOOPS_FREE e
      | Some n \<Rightarrow> if n = 0 then DEFAULT_MAX_LOOPS_FREE e else n)"

definition updatePlayBackControl :: "AgentPlaybackControl \<Rightarrow> agent \<Rightarrow> agent" where
  "updatePlayBackControl newPlaybackControl s = s\<lparr>playbackControl := newPlaybackControl\<rparr>"

definition updateIsRunning :: "bool \<Rightarrow> agent \<Rightarrow> agent" where
  "updateIsRunning b s = s\<lparr>isRunning := b\<rparr>"

definition stopAgent :: "env \<Rightarrow> agent \<Rightarrow> agent" where
  "stopAgent e s = shutdown ((sendManualShutdownMessage e s)\<lparr>isRunning := False\<rparr>)"

text \<open>
  \<open>onApiError\<close> is the callback handed to \<open>AgentApi\<close>; it always throws its argument
  again, so it returns what it throws with the agent.
\<close>

definition onApiError :: "env \<Rightarrow> thrown \<Rightarrow> agent \<Rightarrow> thrown \<times> agent" where
  "onApiError e x s =
     (let s1 = shutdown s;
          s2 = (if isAxiosError x \<and> responseStatus x = Some 429
                then sendErrorMessage (translate e ''RATE_LIMIT_EXCEEDED'' ''errors'') s1
                else s1)
      in (x, s2))"

subsection \<open>The goal bootstrap\<close>

text \<open>One new task per value, in order: the loop over \<open>taskValues\<close> and \<open>newTasks\<close>.\<close>

fun addTasks :: "string list \<Rightarrow> agent \<Rightarrow> agent" where
  "addTasks [] s = s"
| "addTasks (v # vs) s =
     addTasks vs
       (sendMessage
          (MESSAGE_TYPE_TASK \<lparr>taskId = uuids s, val = v, status = TASK_STATUS_STARTED, info = None\<rparr>)
          (s\<lparr>uuids := uuids s + 1\<rparr>))"

definition startGoal :: "env \<Rightarrow> agent \<Rightarrow> agent" where
  "startGoal e s =
     (let s1 = sendThinkingMessage (sendGoalMessage s);
          s2 = s1\<lparr>requests := requests s1 + 1, decompositions := decompositions s1 + 1\<rparr>
      in case getInitialTasks e (requests s1) of
           Inr taskValues \<Rightarrow> addTasks taskValues s2
         | Inl x \<Rightarrow> shutdown (sendErrorMessage (getMessageFromError e x) s2))"

subsection \<open>One iteration\<close>

definition defaultAnalysis :: Analysis where
  "defaultAnalysis =
     \<lparr>reasoning = ''I'' @ [CHR 0x27] @ ''ll just think about it...'', action = ''reason'', arg = []\<rparr>"

definition analyse :: "env \<Rightarrow> string \<Rightarrow> agent \<Rightarrow> (thrown + Analysis) \<times> agent" where
  "analyse e v s =
     (if isWebSearchEnabled s then
        (case analyzeTask e (requests s) v of
           Inl x \<Rightarrow> (Inl x, s\<lparr>requests := requests s + 1\<rparr>)
         | Inr a \<Rightarrow> (Inr a, sendAnalysisMessage a (s\<lparr>requests := requests s + 1\<rparr>)))
      else (Inr defaultAnalysis, s))"

text \<open>
  The \<open>try\<close> block at the end of an iteration: the request for follow-up tasks, the new
  tasks, and the \<open>catch\<close> branch.
\<close>

definition addNewTasks :: "env \<Rightarrow> Task \<Rightarrow> string \<Rightarrow> agent \<Rightarrow> agent" where
  "addNewTasks e currentTask result s =
     (let s1 = s\<lparr>requests := requests s + 1\<rparr> in
      case getAdditionalTasks e (requests s) (val currentTask)
             (map val (getRemainingTasks s)) (completedTasks s) result of
        Inr newTasks \<Rightarrow>
          (let s2 = addTasks newTasks s1
           in if length newTasks = 0
              then sendMessage (MESSAGE_TYPE_TASK (currentTask\<lparr>status := TASK_STATUS_FINAL\<rparr>)) s2
              else s2)
      | Inl x \<Rightarrow>
          sendMessage (MESSAGE_TYPE_TASK (currentTask\<lparr>status := TASK_STATUS_FINAL\<rparr>))
            (sendErrorMessage (translate e ''ERROR_ADDING_ADDITIONAL_TASKS'' ''errors'') s1))"

text \<open>
  The part of \<open>loop\<close> between the budget check and the \<open>try\<close> block: the head of
  the pending tasks is announced as executing, analysed when the web search is enabled,
  executed and announced as completed. The two requests are not inside a \<open>try\<close>, so
  what they throw escapes from \<open>loop\<close>: \<open>Inl\<close> holds it with the agent as it is left.
  \<open>Inr\<close> holds the current task, the result and the agent that enter the \<open>try\<close> block.
  With no pending task \<open>getRemainingTasks()[0]\<close> is \<open>undefined\<close>: the message
  \<open>{...currentTask, status: TASK_STATUS_EXECUTING}\<close> is a status and nothing else, the
  thinking message follows, and reading \<open>currentTask.value\<close>, for the analysis or for
  the execution, throws before any request is sent. \<open>loop\<close> never gets there, since it
  has just found a pending task.
\<close>

definition execute :: "env \<Rightarrow> agent \<Rightarrow> thrown \<times> agent + Task \<times> string \<times> agent" where
  "execute e s =
     (case getRemainingTasks s of
        [] \<Rightarrow>
          (let s1 = sendMessage (MESSAGE_UNTYPED TASK_STATUS_EXECUTING) s;
               s2 = sendThinkingMessage s1
           in Inl (TypeError, s2))
      | currentTask # _ \<Rightarrow>
          (let s1 = sendMessage (MESSAGE_TYPE_TASK (currentTask\<lparr>status := TASK_STATUS_EXECUTING\<rparr>)) s;
               s2 = sendThinkingMessage s1
           in case analyse e (val currentTask) s2 of
                (Inl x, s3) \<Rightarrow> Inl (x, s3)
              | (Inr analysis, s3) \<Rightarrow>
                  (let s4 = s3\<lparr>requests := requests s3 + 1\<rparr> in
                   case executeTask e (requests s3) (val currentTask) analysis of
                     Inl x \<Rightarrow> Inl (x, s4)
                   | Inr result \<Rightarrow>
                       (let s5 = sendMessage
                                   (MESSAGE_TYPE_TASK
                                      (currentTask\<lparr>info := Some result, status := TASK_STATUS_COMPLETED\<rparr>))
                                   s4;
                            s6 = s5\<lparr>completedTasks := completedTasks s5 @ [val currentTask]\<rparr>;
                            s7 = sendThinkingMessage s6
                        in Inr (currentTask, result, s7)))))"

text \<open>The agent that \<open>execute\<close> leaves, whether a request has thrown or not.\<close>

definition left :: "thrown \<times> agent + Task \<times> string \<times> agent \<Rightarrow> agent" where
  "left r = (case r of Inl (x, s) \<Rightarrow> s | Inr (t, res, s) \<Rightarrow> s)"

text \<open>One iteration after its checks: the execution, then the \<open>try\<close> block.\<close>

definition perform :: "env \<Rightarrow> agent \<Rightarrow> thrown option \<times> agent" where
  "perform e s =
     (case execute e s of
        Inl (x, s') \<Rightarrow> (Some x, s')
      | Inr (currentTask, result, s7) \<Rightarrow> (None, addNewTasks e currentTask result s7))"

subsection \<open>The loop and \<open>run\<close>\<close>

text \<open>
  \<open>loop\<close> calls itself at its end. It returns the exception that escapes, if one does,
  and the agent. The recursion ends because \<open>numLoops\<close> grows by one before every call
  and the budget check lets no value above \<open>maxLoops\<close> through.
\<close>

function loop :: "env \<Rightarrow> agent \<Rightarrow> thrown option \<times> agent" where
  "loop e s =
     (let s1 = conditionalPause s in
      if \<not> isRunning s1 then (None, s1)
      else if length (getRemainingTasks s1) = 0
        then (None, shutdown (sendCompletedMessage e s1))
      else
        (let s2 = s1\<lparr>numLoops := numLoops s1 + 1\<rparr> in
         if int (numLoops s2) > maxLoops e s2
         then (None, shutdown (sendLoopMessage e s2))
         else (case perform e s2 of
                 (Some x, s3) \<Rightarrow> (Some x, s3)
               | (None, s3) \<Rightarrow> loop e s3)))"
  by pat_completeness auto

text \<open>
  \<open>run\<close>: the bootstrap when the agent is not running, the loop, and the pause hook
  when the loop has returned normally.
\<close>

definition run :: "env \<Rightarrow> agent \<Rightarrow> thrown option \<times> agent" where
  "run e s =
     (let s1 = (if \<not> isRunning s then startGoal e (s\<lparr>isRunning := True\<rparr>) else s)
      in case loop e s1 of
           (Some x, s2) \<Rightarrow> (Some x, s2)
         | (None, s2) \<Rightarrow>
             (None, if mode s2 = PAUSE_MODE \<and> \<not> isRunning s2
                    then handlePause (playbackControl s2) s2 else s2))"

subsection \<open>What is observed of a run\<close>

text \<open>
  The number of times a task has been announced as executing, and the number of times
  the goal has been announced.
\<close>

definition isExecuting :: "Message \<Rightarrow> bool" where
  "isExecuting m =
     (case m of MESSAGE_TYPE_TASK t \<Rightarrow> status t = TASK_STATUS_EXECUTING | _ \<Rightarrow> False)"

definition isGoal :: "Message \<Rightarrow> bool" where
  "isGoal m = (case m of MESSAGE_TYPE_GOAL _ \<Rightarrow> True | _ \<Rightarrow> False)"

definition executions :: "agent \<Rightarrow> nat" where
  "executions s = length (filter isExecuting (messages s))"

definition goals :: "agent \<Rightarrow> nat" where
  "goals s = length (filter isGoal (messages s))"

text \<open>
  Every message that \<open>renderMessage\<close> has received was handed over while the running
  flag was true.
\<close>

definition guarded :: "agent \<Rightarrow> bool" where
  "guarded s = (deliveredWhile s = replicate (length (messages s)) True)"

subsection \<open>Example agents and backends\<close>

text \<open>
  A backend that decomposes the goal into two tasks, executes every task and fails on
  every request for follow-up tasks; translations are the keys themselves.
\<close>

definition tripBackend :: env where
  "tripBackend = \<lparr> DEFAULT_MAX_LOOPS_FREE = 25, translate = (\<lambda>key ns. key),
     getInitialTasks = (\<lambda>n. Inr [''Book flight'', ''Book hotel'']),
     analyzeTask = (\<lambda>n v. Inr defaultAnalysis),
     executeTask = (\<lambda>n v a. Inr ''ok''),
     getAdditionalTasks = (\<lambda>n c r d p. Inl OtherError) \<rparr>"

text \<open>The same backend with the first request rejected with status 429.\<close>

definition quotaBackend :: env where
  "quotaBackend = tripBackend\<lparr>getInitialTasks := (\<lambda>n. Inl (AxiosError (Some 429)))\<rparr>"

text \<open>The same backend with an empty decomposition.\<close>

definition idleBackend :: env where
  "idleBackend = tripBackend\<lparr>getInitialTasks := (\<lambda>n. Inr [])\<rparr>"

definition automaticAgent :: agent where
  "automaticAgent =
     constructor ''trip'' ''Plan a trip'' \<lparr>customMaxLoops = Some 1\<rparr> None None False"

definition stepwiseAgent :: agent where
  "stepwiseAgent =
     constructor ''trip'' ''Plan a trip'' \<lparr>customMaxLoops = None\<rparr> (Some PAUSE_MODE) None False"

text \<open>
  The automatic agent after its bootstrap, after the execution of its first task, and
  after its first iteration; the two tasks of the decomposition; the stepwise agent after
  its first \<open>run\<close>.
\<close>

definition bootedAgent :: agent where
  "bootedAgent = startGoal tripBackend (automaticAgent\<lparr>isRunning := True\<rparr>)"

definition spentAgent :: agent where
  "spentAgent = snd (perform tripBackend (bootedAgent\<lparr>numLoops := 1\<rparr>))"

definition flightTask :: Task where
  "flightTask = \<lparr>taskId = 0, val = ''Book flight'', status = TASK_STATUS_STARTED, info = None\<rparr>"

definition hotelTask :: Task where
  "hotelTask = \<lparr>taskId = 1, val = ''Book hotel'', status = TASK_STATUS_STARTED, info = None\<rparr>"

definition executedAgent :: agent where
  "executedAgent = left (execute tripBackend (bootedAgent\<lparr>numLoops := 1\<rparr>))"

definition pausedAgent :: agent where
  "pausedAgent = snd (run tripBackend stepwiseAgent)"

text \<open>
  An automatic agent with the default budget, a backend that decomposes the goal into one
  task, and the agent after its bootstrap and after the execution of its first task.
\<close>

definition roomyAgent :: agent where
  "roomyAgent =
     constructor ''trip'' ''Plan a trip'' \<lparr>customMaxLoops = None\<rparr> None None False"

definition soloBackend :: env where
  "soloBackend = tripBackend\<lparr>getInitialTasks := (\<lambda>n. Inr [''Book flight''])\<rparr>"

definition afterBootstrap :: "env \<Rightarrow> agent \<Rightarrow> agent" where
  "afterBootstrap e a = startGoal e (a\<lparr>isRunning := True\<rparr>)"

definition afterExecution :: "env \<Rightarrow> agent \<Rightarrow> agent" where
  "afterExecution e s = left (execute e ((conditionalPause s)\<lparr>numLoops := numLoops s + 1\<rparr>))"

text \<open>The automatic agent after its bootstrap on the empty decomposition.\<close>

definition idleAgent :: agent where
  "idleAgent = startGoal idleBackend (automaticAgent\<lparr>isRunning := True\<rparr>)"

section \<open>What the methods leave unchanged\<close>

lemma renderMessage_frame [simp]:
  "numLoops (renderMessage m s) = numLoops s"
  "modelSettings (renderMessage m s) = modelSettings s"
  "mode (renderMessage m s) = mode s"
  "isRunning (renderMessage m s) = isRunning s"
  "playbackControl (renderMessage m s) = playbackControl s"
  "shutdowns (renderMessage m s) = shutdowns s"
  "completedTasks (renderMessage m s) = completedTasks s"
  "pauses (renderMessage m s) = pauses s"
  "isWebSearchEnabled (renderMessage m s) = isWebSearchEnabled s"
  "requests (renderMessage m s) = requests s"
  "uuids (renderMessage m s) = uuids s"
  by (simp_all add: renderMessage_def)

lemma sendMessage_frame [simp]:
  "numLoops (sendMessage m s) = numLoops s"
  "modelSettings (sendMessage m s) = modelSettings s"
  "mode (sendMessage m s) = mode s"
  "isRunning (sendMessage m s) = isRunning s"
  "playbackControl (sendMessage m s) = playbackControl s"
  "shutdowns (sendMessage m s) = shutdowns s"
  "completedTasks (sendMessage m s) = completedTasks s"
  "pauses (sendMessage m s) = pauses s"
  "isWebSearchEnabled (sendMessage m s) = isWebSearchEnabled s"
  "requests (sendMessage m s) = requests s"
  "uuids (sendMessage m s) = uuids s"
  by (simp_all add: sendMessage_def)

lemma addTasks_frame [simp]:
  "numLoops (addTasks vs s) = numLoops s"
  "modelSettings (addTasks vs s) = modelSettings s"
  "mode (addTasks vs s) = mode s"
  "isRunning (addTasks vs s) = isRunning s"
  "playbackControl (addTasks vs s) = playbackControl s"
  "shutdowns (addTasks vs s) = shutdowns s"
  "completedTasks (addTasks vs s) = completedTasks s"
  "pauses (addTasks vs s) = pauses s"
  "isWebSearchEnabled (addTasks vs s) = isWebSearchEnabled s"
  "requests (addTasks vs s) = requests s"
  by (induction vs arbitrary: s; simp)+

lemma addNewTasks_frame [simp]:
  "numLoops (addNewTasks e t r s) = numLoops s"
  "modelSettings (addNewTasks e t r s) = modelSettings s"
  "mode (addNewTasks e t r s) = mode s"
  "isRunning (addNewTasks e t r s) = isRunning s"
  "playbackControl (addNewTasks e t r s) = playbackControl s"
  "shutdowns (addNewTasks e t r s) = shutdowns s"
  "completedTasks (addNewTasks e t r s) = completedTasks s"
  "pauses (addNewTasks e t r s) = pauses s"
  by (simp_all add: addNewTasks_def sendErrorMessage_def Let_def split: sum.split)

lemma analyse_frame [simp]:
  "numLoops (snd (analyse e v s)) = numLoops s"
  "modelSettings (snd (analyse e v s)) = modelSettings s"
  "mode (snd (analyse e v s)) = mode s"
  "isRunning (snd (analyse e v s)) = isRunning s"
  "playbackControl (snd (analyse e v s)) = playbackControl s"
  "shutdowns (snd (analyse e v s)) = shutdowns s"
  "completedTasks (snd (analyse e v s)) = completedTasks s"
  "pauses (snd (analyse e v s)) = pauses s"
  by (simp_all add: analyse_def sendAnalysisMessage_def split: sum.split)

lemma execute_frame:
  "numLoops (left (execute e s)) = numLoops s"
  "modelSettings (left (execute e s)) = modelSettings s"
  "mode (left (execute e s)) = mode s"
  "isRunning (left (execute e s)) = isRunning s"
  "playbackControl (left (execute e s)) = playbackControl s"
  "shutdowns (left (execute e s)) = shutdowns s"
  "pauses (left (execute e s)) = pauses s"
  unfolding execute_def Let_def left_def
  by (auto split: list.split sum.split prod.split
      simp: sendThinkingMessage_def dest!: arg_cong [where f = snd])

lemma perform_frame:
  "numLoops (snd (perform e s)) = numLoops s"
  "modelSettings (snd (perform e s)) = modelSettings s"
  "mode (snd (perform e s)) = mode s"
  "isRunning (snd (perform e s)) = isRunning s"
  "playbackControl (snd (perform e s)) = playbackControl s"
  "shutdowns (snd (perform e s)) = shutdowns s"
  "pauses (snd (perform e s)) = pauses s"
  using execute_frame [of e s]
  by (auto simp: perform_def left_def split: sum.splits prod.splits)

lemma conditionalPause_frame [simp]:
  "numLoops (conditionalPause s) = numLoops s"
  "modelSettings (conditionalPause s) = modelSettings s"
  "mode (conditionalPause s) = mode s"
  "shutdowns (conditionalPause s) = shutdowns s"
  "completedTasks (conditionalPause s) = completedTasks s"
  "pauses (conditionalPause s) = pauses s"
  "messages (conditionalPause s) = messages s"
  "tasks (conditionalPause s) = tasks s"
  by (simp_all add: conditionalPause_def Let_def)

termination loop
proof (relation "measure (\<lambda>(e, s). nat (maxLoops e s - int (numLoops s)))", goal_cases)
  case 1
  show ?case by simp
next
  case (2 e s s1 s2 x s3)
  have s3: "s3 = snd (perform e s2)"
    using 2(6) by (metis snd_conv)
  have n2: "numLoops s2 = numLoops s + 1" and m2: "modelSettings s2 = modelSettings s"
    by (simp_all add: 2(1) 2(4))
  have n: "numLoops s3 = numLoops s + 1"
    by (simp add: s3 perform_frame n2)
  have m: "maxLoops e s3 = maxLoops e s" "maxLoops e s2 = maxLoops e s"
    by (simp_all add: s3 perform_frame maxLoops_def m2)
  have "int (numLoops s) + 1 \<le> maxLoops e s"
    using 2(5) by (simp add: m n2)
  then show ?case
    by (simp add: n m)
qed

declare loop.simps [simp del]

section \<open>The four ways through \<open>loop\<close>\<close>

lemma loop_paused:
  "\<not> isRunning (conditionalPause s) \<Longrightarrow> loop e s = (None, conditionalPause s)"
  by (simp add: loop.simps)

lemma loop_completed:
  "isRunning (conditionalPause s) \<Longrightarrow> getRemainingTasks (conditionalPause s) = [] \<Longrightarrow>
   loop e s = (None, shutdown (sendCompletedMessage e (conditionalPause s)))"
  by (simp add: loop.simps)

lemma loop_exceeded:
  "isRunning (conditionalPause s) \<Longrightarrow> getRemainingTasks (conditionalPause s) \<noteq> [] \<Longrightarrow>
   maxLoops e s < int (numLoops s) + 1 \<Longrightarrow>
   loop e s = (None, shutdown (sendLoopMessage e ((conditionalPause s)\<lparr>numLoops := numLoops s + 1\<rparr>)))"
  by (simp add: loop.simps maxLoops_def)

lemma loop_iterates:
  "isRunning (conditionalPause s) \<Longrightarrow> getRemainingTasks (conditionalPause s) \<noteq> [] \<Longrightarrow>
   \<not> maxLoops e s < int (numLoops s) + 1 \<Longrightarrow>
   loop e s =
     (case perform e ((conditionalPause s)\<lparr>numLoops := numLoops s + 1\<rparr>) of
        (Some x, s3) \<Rightarrow> (Some x, s3)
      | (None, s3) \<Rightarrow> loop e s3)"
  by (simp add: loop.simps maxLoops_def)

lemma loop_stepwise_pause:
  assumes "mode s = PAUSE_MODE" and "playbackControl s = AGENT_PAUSE"
  shows "loop e s = (None, s\<lparr>isRunning := False\<rparr>)"
proof -
  have c: "conditionalPause s = s\<lparr>isRunning := False\<rparr>"
    using assms by (simp add: conditionalPause_def)
  show ?thesis
    using loop_paused [of s e] by (simp add: c)
qed

lemma loop_induct [case_names step]:
  assumes "\<And>e s. (\<And>s3. isRunning (conditionalPause s) \<Longrightarrow>
              getRemainingTasks (conditionalPause s) \<noteq> [] \<Longrightarrow>
              \<not> maxLoops e s < int (numLoops s) + 1 \<Longrightarrow>
              perform e ((conditionalPause s)\<lparr>numLoops := numLoops s + 1\<rparr>) = (None, s3) \<Longrightarrow>
              P e s3) \<Longrightarrow> P e s"
  shows "P e s"
proof (induction e s rule: loop.induct)
  case (1 e s)
  show ?case
  proof (rule assms)
    fix s3
    assume a: "isRunning (conditionalPause s)" "getRemainingTasks (conditionalPause s) \<noteq> []"
      "\<not> maxLoops e s < int (numLoops s) + 1"
      "perform e ((conditionalPause s)\<lparr>numLoops := numLoops s + 1\<rparr>) = (None, s3)"
    show "P e s3"
      by (rule 1 [of "conditionalPause s" "(conditionalPause s)\<lparr>numLoops := numLoops s + 1\<rparr>" None s3])
         (use a in \<open>simp_all add: maxLoops_def\<close>)
  qed
qed

section \<open>Messages, counts and the task store\<close>

lemma messages_sendMessage:
  "messages (sendMessage m s) = messages s @ (if isRunning s then [m] else [])"
  by (simp add: sendMessage_def renderMessage_def)

lemma filter_addTasks:
  assumes "\<And>t. status t = TASK_STATUS_STARTED \<Longrightarrow> \<not> P (MESSAGE_TYPE_TASK t)"
  shows "filter P (messages (addTasks vs s)) = filter P (messages s)"
  by (induction vs arbitrary: s) (simp_all add: messages_sendMessage assms)

lemma executions_sendMessage:
  "executions (sendMessage m s) = executions s + (if isRunning s \<and> isExecuting m then 1 else 0)"
  by (simp add: executions_def messages_sendMessage)

lemma executions_requests [simp]: "executions (s\<lparr>requests := n\<rparr>) = executions s"
  by (simp add: executions_def)

lemma executions_addTasks [simp]: "executions (addTasks vs s) = executions s"
  by (simp add: executions_def filter_addTasks isExecuting_def)

lemma executions_addNewTasks [simp]: "executions (addNewTasks e t r s) = executions s"
  by (simp add: addNewTasks_def Let_def executions_sendMessage sendErrorMessage_def
      isExecuting_def split: sum.split)

lemma executions_analyse [simp]: "executions (snd (analyse e v s)) = executions s"
  by (simp add: analyse_def sendAnalysisMessage_def executions_sendMessage isExecuting_def
      split: sum.split)

lemma execute_cases [case_names none analysis_failed execution_failed executed]:
  obtains
    (none) "getRemainingTasks s = []"
      "execute e s =
         Inl (TypeError,
           sendThinkingMessage (sendMessage (MESSAGE_UNTYPED TASK_STATUS_EXECUTING) s))"
  | (analysis_failed) t ts x s3 where
      "getRemainingTasks s = t # ts"
      "analyse e (val t)
         (sendThinkingMessage
            (sendMessage (MESSAGE_TYPE_TASK (t\<lparr>status := TASK_STATUS_EXECUTING\<rparr>)) s))
       = (Inl x, s3)"
      "execute e s = Inl (x, s3)"
  | (execution_failed) t ts a s3 x where
      "getRemainingTasks s = t # ts"
      "analyse e (val t)
         (sendThinkingMessage
            (sendMessage (MESSAGE_TYPE_TASK (t\<lparr>status := TASK_STATUS_EXECUTING\<rparr>)) s))
       = (Inr a, s3)"
      "executeTask e (requests s3) (val t) a = Inl x"
      "execute e s = Inl (x, s3\<lparr>requests := requests s3 + 1\<rparr>)"
  | (executed) t ts a s3 r where
      "getRemainingTasks s = t # ts"
      "analyse e (val t)
         (sendThinkingMessage
            (sendMessage (MESSAGE_TYPE_TASK (t\<lparr>status := TASK_STATUS_EXECUTING\<rparr>)) s))
       = (Inr a, s3)"
      "executeTask e (requests s3) (val t) a = Inr r"
      "execute e s =
         Inr (t, r,
           sendThinkingMessage
             ((sendMessage
                 (MESSAGE_TYPE_TASK (t\<lparr>info := Some r, status := TASK_STATUS_COMPLETED\<rparr>))
                 (s3\<lparr>requests := requests s3 + 1\<rparr>))
              \<lparr>completedTasks := completedTasks s3 @ [val t]\<rparr>))"
proof (cases "getRemainingTasks s")
  case Nil
  then show ?thesis using none by (simp add: execute_def)
next
  case (Cons t ts)
  let ?s2 = "sendThinkingMessage
            (sendMessage (MESSAGE_TYPE_TASK (t\<lparr>status := TASK_STATUS_EXECUTING\<rparr>)) s)"
  obtain r s3 where a: "analyse e (val t) ?s2 = (r, s3)"
    by (cases "analyse e (val t) ?s2")
  show ?thesis
  proof (cases r)
    case (Inl x)
    then show ?thesis
      using analysis_failed [of t ts x s3] Cons a by (simp add: execute_def)
  next
    case (Inr an)
    show ?thesis
    proof (cases "executeTask e (requests s3) (val t) an")
      case (Inl x)
      then show ?thesis
        using execution_failed [of t ts an s3 x] Cons a Inr by (simp add: execute_def)
    next
      case res: (Inr r')
      then show ?thesis
        using executed [of t ts an s3 r'] Cons a Inr by (simp add: execute_def Let_def)
    qed
  qed
qed

lemma executions_execute:
  "executions (left (execute e s)) =
     executions s + (if isRunning s \<and> getRemainingTasks s \<noteq> [] then 1 else 0)"
proof (cases e s rule: execute_cases)
  case none
  then show ?thesis
    by (simp add: left_def sendThinkingMessage_def executions_sendMessage isExecuting_def)
next
  case (analysis_failed t ts x s3)
  then show ?thesis
    using executions_analyse [of e "val t"
      "sendThinkingMessage (sendMessage (MESSAGE_TYPE_TASK (t\<lparr>status := TASK_STATUS_EXECUTING\<rparr>)) s)"]
    by (simp add: left_def sendThinkingMessage_def executions_sendMessage isExecuting_def)
next
  case (execution_failed t ts a s3 x)
  then show ?thesis
    using executions_analyse [of e "val t"
      "sendThinkingMessage (sendMessage (MESSAGE_TYPE_TASK (t\<lparr>status := TASK_STATUS_EXECUTING\<rparr>)) s)"]
    by (simp add: left_def sendThinkingMessage_def executions_sendMessage isExecuting_def)
next
  case (executed t ts a s3 r)
  have c: "executions (u\<lparr>completedTasks := c\<rparr>) = executions u" for u c
    by (simp add: executions_def)
  show ?thesis
    using executed executions_analyse [of e "val t"
      "sendThinkingMessage (sendMessage (MESSAGE_TYPE_TASK (t\<lparr>status := TASK_STATUS_EXECUTING\<rparr>)) s)"]
    by (simp add: left_def sendThinkingMessage_def executions_sendMessage isExecuting_def c)
qed

lemma executions_perform:
  "executions (snd (perform e s)) =
     executions s + (if isRunning s \<and> getRemainingTasks s \<noteq> [] then 1 else 0)"
  using executions_execute [of e s]
  by (auto simp: perform_def left_def split: sum.splits prod.splits)

lemma executions_simps [simp]:
  "executions (conditionalPause s) = executions s"
  "executions (shutdown s) = executions s"
  "executions (s\<lparr>numLoops := n\<rparr>) = executions s"
  "executions (sendCompletedMessage e s) = executions s"
  "executions (sendLoopMessage e s) = executions s"
  by (simp_all add: executions_def shutdown_def sendCompletedMessage_def sendLoopMessage_def
      messages_sendMessage isExecuting_def)

lemma executions_control [simp]:
  "executions (s\<lparr>isRunning := b\<rparr>) = executions s"
  "executions (s\<lparr>playbackControl := c\<rparr>) = executions s"
  "executions (s\<lparr>shutdowns := n\<rparr>) = executions s"
  by (simp_all add: executions_def)

lemma getRemainingTasks_numLoops [simp]:
  "getRemainingTasks (s\<lparr>numLoops := n\<rparr>) = getRemainingTasks s"
  "getRemainingTasks (s\<lparr>isRunning := b\<rparr>) = getRemainingTasks s"
  "getRemainingTasks (s\<lparr>playbackControl := c\<rparr>) = getRemainingTasks s"
  by (simp_all add: getRemainingTasks_def)

lemma getRemainingTasks_conditionalPause [simp]:
  "getRemainingTasks (conditionalPause s) = getRemainingTasks s"
  by (simp add: getRemainingTasks_def)

lemma maxLoops_perform: "maxLoops e (snd (perform e s)) = maxLoops e s"
  by (simp add: maxLoops_def perform_frame)

lemma executions_loop_bound:
  "int (executions (snd (loop e s))) \<le> int (executions s) + max 0 (maxLoops e s - int (numLoops s))"
proof (induction e s rule: loop_induct)
  case (step e s)
  let ?s1 = "conditionalPause s"
  let ?s2 = "?s1\<lparr>numLoops := numLoops s + 1\<rparr>"
  show ?case
  proof (cases "isRunning ?s1 \<and> getRemainingTasks ?s1 \<noteq> [] \<and> \<not> maxLoops e s < int (numLoops s) + 1")
    case False
    then consider "\<not> isRunning ?s1"
      | "isRunning ?s1" "getRemainingTasks ?s1 = []"
      | "isRunning ?s1" "getRemainingTasks ?s1 \<noteq> []" "maxLoops e s < int (numLoops s) + 1"
      by blast
    then show ?thesis
    proof cases
      case 1
      then show ?thesis by (simp add: loop_paused)
    next
      case 2
      then show ?thesis by (simp add: loop_completed)
    next
      case 3
      then show ?thesis by (simp add: loop_exceeded)
    qed
  next
    case True
    define r where "r = fst (perform e ?s2)"
    define s3 where "s3 = snd (perform e ?s2)"
    have p: "perform e ?s2 = (r, s3)"
      by (simp add: r_def s3_def)
    have ex: "executions s3 \<le> executions s + 1"
      unfolding s3_def by (simp add: executions_perform)
    have n3: "numLoops s3 = numLoops s + 1" and m3: "maxLoops e s3 = maxLoops e s"
      unfolding s3_def by (simp_all add: perform_frame maxLoops_def)
    have it: "loop e s = (case (r, s3) of (Some x, s3) \<Rightarrow> (Some x, s3) | (None, s3) \<Rightarrow> loop e s3)"
      using True loop_iterates [of s e] unfolding p by blast
    show ?thesis
    proof (cases r)
      case None
      have "loop e s = loop e s3"
        by (simp add: it None)
      moreover have "int (executions (snd (loop e s3)))
          \<le> int (executions s3) + max 0 (maxLoops e s3 - int (numLoops s3))"
        using True p by (intro step) (simp_all add: None)
      ultimately show ?thesis
        using ex True by (simp add: n3 m3)
    next
      case (Some x)
      have "loop e s = (Some x, s3)"
        by (simp add: it Some)
      then show ?thesis
        using ex True by simp
    qed
  qed
qed

lemma tasks_sendMessage:
  "tasks (sendMessage m s) =
     (if isRunning s then (case m of MESSAGE_TYPE_TASK t \<Rightarrow> store t (tasks s) | _ \<Rightarrow> tasks s)
      else tasks s)"
  by (simp add: sendMessage_def renderMessage_def)

lemma tasks_analyse [simp]: "tasks (snd (analyse e v s)) = tasks s"
  by (simp add: analyse_def sendAnalysisMessage_def tasks_sendMessage split: sum.split)

lemma taskId_mutate [simp]: "taskId (mutate t u) = taskId u"
  by (simp add: mutate_def)


lemma ids_mutate [simp]: "map taskId (map (mutate t) ts) = map taskId ts"
  by simp




section \<open>The goal is announced by the bootstrap only\<close>

lemma goals_sendMessage:
  "goals (sendMessage m s) = goals s + (if isRunning s \<and> isGoal m then 1 else 0)"
  by (simp add: goals_def messages_sendMessage)

lemma goals_updates [simp]:
  "goals (s\<lparr>requests := n\<rparr>) = goals s"
  "goals (s\<lparr>decompositions := n\<rparr>) = goals s"
  "goals (s\<lparr>numLoops := n\<rparr>) = goals s"
  "goals (s\<lparr>completedTasks := c\<rparr>) = goals s"
  "goals (s\<lparr>isRunning := b\<rparr>) = goals s"
  "goals (conditionalPause s) = goals s"
  "goals (shutdown s) = goals s"
  "goals (handlePause pc s) = goals s"
  "goals (sendThinkingMessage s) = goals s"
  "goals (sendErrorMessage err s) = goals s"
  "goals (sendCompletedMessage e s) = goals s"
  "goals (sendLoopMessage e s) = goals s"
  "goals (sendMessage (MESSAGE_TYPE_TASK t) s) = goals s"
  by (simp_all add: goals_def shutdown_def handlePause_def sendThinkingMessage_def
      sendErrorMessage_def sendCompletedMessage_def sendLoopMessage_def messages_sendMessage
      isGoal_def)

lemma goals_addTasks [simp]: "goals (addTasks vs s) = goals s"
  by (simp add: goals_def filter_addTasks isGoal_def)

lemma goals_addNewTasks [simp]: "goals (addNewTasks e t r s) = goals s"
  by (simp add: addNewTasks_def Let_def split: sum.split)

lemma goals_analyse [simp]: "goals (snd (analyse e v s)) = goals s"
  by (simp add: analyse_def sendAnalysisMessage_def goals_sendMessage isGoal_def
      split: sum.split)

lemma goals_execute: "goals (left (execute e s)) = goals s"
proof (cases e s rule: execute_cases)
  case none
  then show ?thesis
    by (simp add: left_def goals_sendMessage isGoal_def)
next
  case (analysis_failed t ts x s3)
  then show ?thesis
    using goals_analyse [of e "val t"
      "sendThinkingMessage (sendMessage (MESSAGE_TYPE_TASK (t\<lparr>status := TASK_STATUS_EXECUTING\<rparr>)) s)"]
    by (simp add: left_def)
next
  case (execution_failed t ts a s3 x)
  then show ?thesis
    using goals_analyse [of e "val t"
      "sendThinkingMessage (sendMessage (MESSAGE_TYPE_TASK (t\<lparr>status := TASK_STATUS_EXECUTING\<rparr>)) s)"]
    by (simp add: left_def)
next
  case (executed t ts a s3 r)
  then show ?thesis
    using goals_analyse [of e "val t"
      "sendThinkingMessage (sendMessage (MESSAGE_TYPE_TASK (t\<lparr>status := TASK_STATUS_EXECUTING\<rparr>)) s)"]
    by (simp add: left_def)
qed

lemma goals_perform: "goals (snd (perform e s)) = goals s"
  using goals_execute [of e s]
  by (auto simp: perform_def left_def split: sum.splits prod.splits)

lemma goals_loop: "goals (snd (loop e s)) = goals s"
proof (induction e s rule: loop_induct)
  case (step e s)
  let ?s1 = "conditionalPause s"
  let ?s2 = "?s1\<lparr>numLoops := numLoops s + 1\<rparr>"
  consider "\<not> isRunning ?s1"
    | "isRunning ?s1" "getRemainingTasks ?s1 = []"
    | "isRunning ?s1" "getRemainingTasks ?s1 \<noteq> []" "maxLoops e s < int (numLoops s) + 1"
    | "isRunning ?s1" "getRemainingTasks ?s1 \<noteq> []" "\<not> maxLoops e s < int (numLoops s) + 1"
    by blast
  then show ?case
  proof cases
    case 1
    then show ?thesis by (simp add: loop_paused)
  next
    case 2
    then show ?thesis by (simp add: loop_completed)
  next
    case 3
    then show ?thesis by (simp add: loop_exceeded)
  next
    case 4
    define r where "r = fst (perform e ?s2)"
    define s3 where "s3 = snd (perform e ?s2)"
    have p: "perform e ?s2 = (r, s3)"
      by (simp add: r_def s3_def)
    have g3: "goals s3 = goals s"
      unfolding s3_def by (simp add: goals_perform)
    have it: "loop e s = (case (r, s3) of (Some x, s3) \<Rightarrow> (Some x, s3) | (None, s3) \<Rightarrow> loop e s3)"
      using 4 loop_iterates [of s e] unfolding p by blast
    show ?thesis
    proof (cases r)
      case None
      have "goals (snd (loop e s3)) = goals s3"
        using 4 p by (intro step) (simp_all add: None)
      then show ?thesis by (simp add: it None g3)
    next
      case (Some x)
      then show ?thesis by (simp add: it g3)
    qed
  qed
qed

lemma goals_startGoal: "isRunning s \<Longrightarrow> goals (startGoal e s) = goals s + 1"
  by (simp add: startGoal_def Let_def sendGoalMessage_def goals_sendMessage isGoal_def
      split: sum.split)

lemma isRunning_startGoal [simp]: "isRunning (startGoal e s) = isRunning s"
  by (simp add: startGoal_def Let_def sendGoalMessage_def sendThinkingMessage_def
      sendErrorMessage_def shutdown_def split: sum.split)

lemma goals_run_finish:
  "goals (snd (case loop e s of
     (Some x, s2) \<Rightarrow> (Some x, s2)
   | (None, s2) \<Rightarrow>
       (None, if mode s2 = PAUSE_MODE \<and> \<not> isRunning s2
              then handlePause (playbackControl s2) s2 else s2))) = goals s"
  using goals_loop [of e s]
  by (cases "loop e s") (auto split: option.split)

lemma conditionalPause_passes:
  "\<not> (mode s = PAUSE_MODE \<and> playbackControl s = AGENT_PAUSE) \<Longrightarrow>
   conditionalPause s = (if mode s = PAUSE_MODE
     then s\<lparr>isRunning := True, playbackControl := AGENT_PAUSE\<rparr> else s)"
  by (cases "playbackControl s") (simp_all add: conditionalPause_def)

section \<open>Deliveries, decomposition requests and the first message of an iteration\<close>

lemma deliveredWhile_sendMessage:
  "deliveredWhile (sendMessage m s) = deliveredWhile s @ (if isRunning s then [True] else [])"
  by (simp add: sendMessage_def renderMessage_def)

lemma decompositions_sendMessage [simp]: "decompositions (sendMessage m s) = decompositions s"
  by (simp add: sendMessage_def renderMessage_def)

lemma guarded_sendMessage [simp]: "guarded (sendMessage m s) = guarded s"
  by (simp add: guarded_def deliveredWhile_sendMessage messages_sendMessage
      replicate_append_same [symmetric])

lemma guarded_updates [simp]:
  "guarded (s\<lparr>requests := n\<rparr>) = guarded s"
  "guarded (s\<lparr>decompositions := n\<rparr>) = guarded s"
  "guarded (s\<lparr>numLoops := n\<rparr>) = guarded s"
  "guarded (s\<lparr>uuids := n\<rparr>) = guarded s"
  "guarded (s\<lparr>completedTasks := c\<rparr>) = guarded s"
  "guarded (s\<lparr>isRunning := b\<rparr>) = guarded s"
  "guarded (s\<lparr>playbackControl := pc\<rparr>) = guarded s"
  "guarded (conditionalPause s) = guarded s"
  "guarded (shutdown s) = guarded s"
  "guarded (handlePause pc s) = guarded s"
  by (simp_all add: guarded_def shutdown_def handlePause_def conditionalPause_def Let_def)

lemma decompositions_updates [simp]:
  "decompositions (conditionalPause s) = decompositions s"
  "decompositions (shutdown s) = decompositions s"
  "decompositions (handlePause pc s) = decompositions s"
  by (simp_all add: shutdown_def handlePause_def conditionalPause_def Let_def)

lemma guarded_send [simp]:
  "guarded (sendGoalMessage s) = guarded s"
  "guarded (sendLoopMessage e s) = guarded s"
  "guarded (sendManualShutdownMessage e s) = guarded s"
  "guarded (sendCompletedMessage e s) = guarded s"
  "guarded (sendAnalysisMessage a s) = guarded s"
  "guarded (sendThinkingMessage s) = guarded s"
  "guarded (sendErrorMessage err s) = guarded s"
  by (simp_all add: sendGoalMessage_def sendLoopMessage_def sendManualShutdownMessage_def
      sendCompletedMessage_def sendAnalysisMessage_def sendThinkingMessage_def
      sendErrorMessage_def)

lemma decompositions_send [simp]:
  "decompositions (sendGoalMessage s) = decompositions s"
  "decompositions (sendLoopMessage e s) = decompositions s"
  "decompositions (sendManualShutdownMessage e s) = decompositions s"
  "decompositions (sendCompletedMessage e s) = decompositions s"
  "decompositions (sendAnalysisMessage a s) = decompositions s"
  "decompositions (sendThinkingMessage s) = decompositions s"
  "decompositions (sendErrorMessage err s) = decompositions s"
  by (simp_all add: sendGoalMessage_def sendLoopMessage_def sendManualShutdownMessage_def
      sendCompletedMessage_def sendAnalysisMessage_def sendThinkingMessage_def
      sendErrorMessage_def)

lemma observed_addTasks [simp]:
  "guarded (addTasks vs s) = guarded s"
  "decompositions (addTasks vs s) = decompositions s"
  by (induction vs arbitrary: s; simp)+

lemma observed_addNewTasks [simp]:
  "guarded (addNewTasks e t r s) = guarded s"
  "decompositions (addNewTasks e t r s) = decompositions s"
  by (simp_all add: addNewTasks_def Let_def split: sum.split)

lemma observed_analyse [simp]:
  "guarded (snd (analyse e v s)) = guarded s"
  "decompositions (snd (analyse e v s)) = decompositions s"
  by (simp_all add: analyse_def split: sum.split)

lemma observed_execute:
  "guarded (left (execute e s)) = guarded s \<and>
   decompositions (left (execute e s)) = decompositions s"
proof (cases e s rule: execute_cases)
  case none
  then show ?thesis by (simp add: left_def)
next
  case (analysis_failed t ts x s3)
  then show ?thesis
    using observed_analyse [of e "val t"
      "sendThinkingMessage (sendMessage (MESSAGE_TYPE_TASK (t\<lparr>status := TASK_STATUS_EXECUTING\<rparr>)) s)"]
    by (simp add: left_def)
next
  case (execution_failed t ts a s3 x)
  then show ?thesis
    using observed_analyse [of e "val t"
      "sendThinkingMessage (sendMessage (MESSAGE_TYPE_TASK (t\<lparr>status := TASK_STATUS_EXECUTING\<rparr>)) s)"]
    by (simp add: left_def)
next
  case (executed t ts a s3 r)
  then show ?thesis
    using observed_analyse [of e "val t"
      "sendThinkingMessage (sendMessage (MESSAGE_TYPE_TASK (t\<lparr>status := TASK_STATUS_EXECUTING\<rparr>)) s)"]
    by (simp add: left_def)
qed

lemma observed_perform:
  "guarded (snd (perform e s)) = guarded s \<and>
   decompositions (snd (perform e s)) = decompositions s"
  using observed_execute [of e s]
  by (auto simp: perform_def left_def split: sum.splits prod.splits)

lemma observed_loop:
  "guarded (snd (loop e s)) = guarded s \<and> decompositions (snd (loop e s)) = decompositions s"
proof (induction e s rule: loop_induct)
  case (step e s)
  let ?s1 = "conditionalPause s"
  let ?s2 = "?s1\<lparr>numLoops := numLoops s + 1\<rparr>"
  consider "\<not> isRunning ?s1"
    | "isRunning ?s1" "getRemainingTasks ?s1 = []"
    | "isRunning ?s1" "getRemainingTasks ?s1 \<noteq> []" "maxLoops e s < int (numLoops s) + 1"
    | "isRunning ?s1" "getRemainingTasks ?s1 \<noteq> []" "\<not> maxLoops e s < int (numLoops s) + 1"
    by blast
  then show ?case
  proof cases
    case 1
    then show ?thesis by (simp add: loop_paused)
  next
    case 2
    then show ?thesis by (simp add: loop_completed)
  next
    case 3
    then show ?thesis by (simp add: loop_exceeded)
  next
    case 4
    define r where "r = fst (perform e ?s2)"
    define s3 where "s3 = snd (perform e ?s2)"
    have p: "perform e ?s2 = (r, s3)"
      by (simp add: r_def s3_def)
    have g3: "guarded s3 = guarded s" "decompositions s3 = decompositions s"
      unfolding s3_def by (simp_all add: observed_perform)
    have it: "loop e s = (case (r, s3) of (Some x, s3) \<Rightarrow> (Some x, s3) | (None, s3) \<Rightarrow> loop e s3)"
      using 4 loop_iterates [of s e] unfolding p by blast
    show ?thesis
    proof (cases r)
      case None
      have "guarded (snd (loop e s3)) = guarded s3
          \<and> decompositions (snd (loop e s3)) = decompositions s3"
        using 4 p by (intro step) (simp_all add: None)
      then show ?thesis by (simp add: it None g3)
    next
      case (Some x)
      then show ?thesis by (simp add: it g3)
    qed
  qed
qed

lemma observed_startGoal:
  "guarded (startGoal e s) = guarded s" "decompositions (startGoal e s) = decompositions s + 1"
  by (simp_all add: startGoal_def Let_def split: sum.split)

lemma run_running:
  "isRunning s \<Longrightarrow>
   run e s =
     (case loop e s of
        (Some x, s2) \<Rightarrow> (Some x, s2)
      | (None, s2) \<Rightarrow>
          (None, if mode s2 = PAUSE_MODE \<and> \<not> isRunning s2
                 then handlePause (playbackControl s2) s2 else s2))"
  by (simp add: run_def)

lemma observed_run_running:
  assumes "isRunning s"
  shows "guarded (snd (run e s)) = guarded s \<and> decompositions (snd (run e s)) = decompositions s"
  using observed_loop [of e s]
  by (cases "loop e s") (auto simp: run_running [OF assms] split: option.split)

lemma observed_run:
  "guarded (snd (run e s)) = guarded s"
  "decompositions (snd (run e s)) = decompositions s + (if isRunning s then 0 else 1)"
proof -
  have b: "run e s = run e (startGoal e (s\<lparr>isRunning := True\<rparr>))" if "\<not> isRunning s"
    using that by (simp add: run_def)
  show "guarded (snd (run e s)) = guarded s"
    using observed_run_running [of s e] observed_run_running [of "startGoal e (s\<lparr>isRunning := True\<rparr>)" e] b
    by (cases "isRunning s") (simp_all add: observed_startGoal)
  show "decompositions (snd (run e s)) = decompositions s + (if isRunning s then 0 else 1)"
    using observed_run_running [of s e] observed_run_running [of "startGoal e (s\<lparr>isRunning := True\<rparr>)" e] b
    by (cases "isRunning s") (simp_all add: observed_startGoal)
qed

lemma idle_sendMessage: "\<not> isRunning s \<Longrightarrow> sendMessage m s = s"
  by (simp add: sendMessage_def)

lemma idle_addTasks: "\<not> isRunning s \<Longrightarrow> messages (addTasks vs s) = messages s"
  by (induction vs arbitrary: s) (simp_all add: messages_sendMessage)

lemma idle_messages:
  assumes "\<not> isRunning s"
  shows "messages (startGoal e s) = messages s"
    and "messages (addNewTasks e t r s) = messages s"
    and "messages (snd (analyse e v s)) = messages s"
    and "messages (snd (onApiError e x s)) = messages s"
    and "messages (stopAgent e s) = messages s"
  using assms
  by (simp_all add: startGoal_def addNewTasks_def analyse_def onApiError_def stopAgent_def
      sendGoalMessage_def sendThinkingMessage_def sendErrorMessage_def sendAnalysisMessage_def
      sendManualShutdownMessage_def shutdown_def Let_def idle_sendMessage idle_addTasks
      messages_sendMessage split: sum.split)

lemma idle_execute:
  assumes "\<not> isRunning s"
  shows "messages (left (execute e s)) = messages s"
proof (cases e s rule: execute_cases)
  case none
  then show ?thesis using assms by (simp add: left_def sendThinkingMessage_def idle_sendMessage)
next
  case (analysis_failed t ts x s3)
  then show ?thesis
    using assms idle_messages(3) [of s e "val t"]
    by (simp add: left_def sendThinkingMessage_def idle_sendMessage)
next
  case (execution_failed t ts a s3 x)
  then show ?thesis
    using assms idle_messages(3) [of s e "val t"]
    by (simp add: left_def sendThinkingMessage_def idle_sendMessage)
next
  case (executed t ts a s3 r)
  have "s3 = snd (analyse e (val t) s)"
    using executed(2) assms by (simp add: sendThinkingMessage_def idle_sendMessage)
  then have "messages s3 = messages s" "\<not> isRunning s3"
    using assms idle_messages(3) [of s e "val t"] by simp_all
  then show ?thesis
    using executed(4) by (simp add: left_def sendThinkingMessage_def messages_sendMessage)
qed

lemma idle_perform: "\<not> isRunning s \<Longrightarrow> messages (snd (perform e s)) = messages s"
proof -
  assume a: "\<not> isRunning s"
  have "\<not> isRunning (left (execute e s))"
    using a by (simp add: execute_frame)
  then show ?thesis
    using idle_execute [OF a, of e] idle_messages(2) [of "left (execute e s)" e]
    by (auto simp: perform_def left_def split: sum.splits prod.splits)
qed

lemma guarded_control [simp]:
  "guarded (updateIsRunning b s) = guarded s"
  "guarded (updatePlayBackControl pc s) = guarded s"
  "guarded (stopAgent e s) = guarded s"
  "guarded (snd (onApiError e x s)) = guarded s"
  by (simp_all add: updateIsRunning_def updatePlayBackControl_def stopAgent_def
      onApiError_def Let_def)

lemma idle_loop: "\<not> isRunning (conditionalPause s) \<Longrightarrow> messages (snd (loop e s)) = messages s"
  by (simp add: loop_paused)

lemma grows_sendMessage: "\<exists>ms. messages (sendMessage m s) = messages s @ ms"
  by (simp add: messages_sendMessage)






text \<open>The definitions that a run on an example unfolds.\<close>

lemmas evaluation = run_def startGoal_def conditionalPause_def
  getRemainingTasks_def sendMessage_def renderMessage_def sendGoalMessage_def
  sendThinkingMessage_def sendErrorMessage_def sendCompletedMessage_def sendLoopMessage_def
  shutdown_def handlePause_def getMessageFromError_def isAxiosError_def responseStatus_def
  constructor_def given_def maxLoops_def perform_def execute_def analyse_def addNewTasks_def
  store_def mutate_def left_def executions_def isExecuting_def goals_def isGoal_def
  updatePlayBackControl_def updateIsRunning_def
  tripBackend_def quotaBackend_def idleBackend_def automaticAgent_def stepwiseAgent_def
  bootedAgent_def spentAgent_def flightTask_def hotelTask_def executedAgent_def pausedAgent_def
  idleAgent_def roomyAgent_def soloBackend_def afterBootstrap_def afterExecution_def guarded_def

section \<open>Four iterations whose request for follow-up tasks fails\<close>





section \<open>The claims\<close>

text \<open>
  C1. An iteration that passes the completion check adds exactly one to the loop counter.
  When the new value exceeds \<open>maxLoops\<close>, the loop emits the budget-exceeded notice,
  calls the shutdown hook and returns: no task is selected, the task store is as it was.
  Otherwise the iteration goes on with the counter at its new value. Over a whole call of
  \<open>loop\<close>, the number of tasks announced as executing is at most what the budget leaves,
  \<open>maxLoops - numLoops\<close>: no iteration begins beyond the budget.
\<close>

theorem loop_counter_and_budget:
  assumes "isRunning (conditionalPause s)" and "getRemainingTasks s \<noteq> []"
  shows
    "(maxLoops e s < int (numLoops s) + 1 \<longrightarrow>
        loop e s =
          (None, shutdown (sendLoopMessage e ((conditionalPause s)\<lparr>numLoops := numLoops s + 1\<rparr>)))
        \<and> numLoops (snd (loop e s)) = numLoops s + 1
        \<and> messages (snd (loop e s))
            = messages s @ [MESSAGE_TYPE_SYSTEM (translate e ''DEMO_LOOPS_REACHED'' ''errors'')]
        \<and> shutdowns (snd (loop e s)) = shutdowns s + 1
        \<and> tasks (snd (loop e s)) = tasks s
        \<and> executions (snd (loop e s)) = executions s)
     \<and> (\<not> maxLoops e s < int (numLoops s) + 1 \<longrightarrow>
        numLoops (snd (perform e ((conditionalPause s)\<lparr>numLoops := numLoops s + 1\<rparr>)))
          = numLoops s + 1
        \<and> loop e s =
            (case perform e ((conditionalPause s)\<lparr>numLoops := numLoops s + 1\<rparr>) of
               (Some x, s3) \<Rightarrow> (Some x, s3)
             | (None, s3) \<Rightarrow> loop e s3))
     \<and> int (executions (snd (loop e s)))
         \<le> int (executions s) + max 0 (maxLoops e s - int (numLoops s))"
proof (intro conjI impI)
  assume over: "maxLoops e s < int (numLoops s) + 1"
  show l: "loop e s =
      (None, shutdown (sendLoopMessage e ((conditionalPause s)\<lparr>numLoops := numLoops s + 1\<rparr>)))"
    using assms over by (simp add: loop_exceeded)
  show "numLoops (snd (loop e s)) = numLoops s + 1"
    by (simp add: l shutdown_def sendLoopMessage_def)
  show "messages (snd (loop e s))
      = messages s @ [MESSAGE_TYPE_SYSTEM (translate e ''DEMO_LOOPS_REACHED'' ''errors'')]"
    using assms by (simp add: l shutdown_def sendLoopMessage_def messages_sendMessage)
  show "shutdowns (snd (loop e s)) = shutdowns s + 1"
    by (simp add: l shutdown_def sendLoopMessage_def)
  show "tasks (snd (loop e s)) = tasks s"
    by (simp add: l shutdown_def sendLoopMessage_def sendMessage_def renderMessage_def)
  show "executions (snd (loop e s)) = executions s"
    by (simp add: l)
next
  assume within: "\<not> maxLoops e s < int (numLoops s) + 1"
  show "numLoops (snd (perform e ((conditionalPause s)\<lparr>numLoops := numLoops s + 1\<rparr>)))
      = numLoops s + 1"
    by (simp add: perform_frame)
  show "loop e s =
      (case perform e ((conditionalPause s)\<lparr>numLoops := numLoops s + 1\<rparr>) of
         (Some x, s3) \<Rightarrow> (Some x, s3)
       | (None, s3) \<Rightarrow> loop e s3)"
    using assms within by (simp add: loop_iterates)
next
  show "int (executions (snd (loop e s)))
      \<le> int (executions s) + max 0 (maxLoops e s - int (numLoops s))"
    by (rule executions_loop_bound)
qed

theorem loop_counter_and_budget_witness:
  "isRunning (conditionalPause bootedAgent) \<and> getRemainingTasks bootedAgent = [flightTask, hotelTask]
   \<and> \<not> maxLoops tripBackend bootedAgent < int (numLoops bootedAgent) + 1
   \<and> numLoops bootedAgent = 0
   \<and> numLoops (snd (perform tripBackend ((conditionalPause bootedAgent)\<lparr>numLoops := 1\<rparr>))) = 1
   \<and> loop tripBackend bootedAgent = loop tripBackend spentAgent
   \<and> isRunning (conditionalPause spentAgent) \<and> getRemainingTasks spentAgent = [hotelTask]
   \<and> maxLoops tripBackend spentAgent < int (numLoops spentAgent) + 1
   \<and> numLoops spentAgent = 1
   \<and> numLoops (snd (loop tripBackend spentAgent)) = 2
   \<and> messages (snd (loop tripBackend spentAgent))
       = messages spentAgent @ [MESSAGE_TYPE_SYSTEM ''DEMO_LOOPS_REACHED'']
   \<and> shutdowns (snd (loop tripBackend spentAgent)) = 1
   \<and> getRemainingTasks (snd (loop tripBackend spentAgent)) = [hotelTask]
   \<and> executions (snd (loop tripBackend spentAgent)) = 1"
  using loop_counter_and_budget [of spentAgent tripBackend]
    loop_counter_and_budget [of bootedAgent tripBackend]
  by (simp add: evaluation)

text \<open>
  C2, as amended. An iteration entered with the running flag true that the pause check
  lets through (the agent is not in Stepwise mode with the control at Pause) and that
  finds no pending task emits the completion notice, calls the shutdown hook and
  returns: the loop counter and the task store are as they were and no task is announced
  as executing. In particular an agent constructed in Automatic mode whose initial
  decomposition is empty ends its first \<open>run\<close> this way. In Stepwise mode with the
  control at Pause the iteration pauses instead, as the counterexample shows.
\<close>

theorem completion_check_shuts_down:
  assumes "isRunning s" and "\<not> (mode s = PAUSE_MODE \<and> playbackControl s = AGENT_PAUSE)"
    and "getRemainingTasks s = []"
  shows "fst (loop e s) = None
    \<and> messages (snd (loop e s))
        = messages s @ [MESSAGE_TYPE_SYSTEM (translate e ''ALL_TASKS_COMPLETETD'' ''errors'')]
    \<and> shutdowns (snd (loop e s)) = shutdowns s + 1
    \<and> numLoops (snd (loop e s)) = numLoops s
    \<and> tasks (snd (loop e s)) = tasks s
    \<and> executions (snd (loop e s)) = executions s
    \<and> (md \<noteq> Some PAUSE_MODE \<and> getInitialTasks e 0 = Inr [] \<longrightarrow>
         fst (run e (constructor nm gl settings md control webSearch)) = None
         \<and> messages (snd (run e (constructor nm gl settings md control webSearch)))
             = [MESSAGE_TYPE_GOAL gl, MESSAGE_TYPE_THINKING [],
                MESSAGE_TYPE_SYSTEM (translate e ''ALL_TASKS_COMPLETETD'' ''errors'')]
         \<and> shutdowns (snd (run e (constructor nm gl settings md control webSearch))) = 1
         \<and> numLoops (snd (run e (constructor nm gl settings md control webSearch))) = 0
         \<and> tasks (snd (run e (constructor nm gl settings md control webSearch))) = [])"
proof -
  have general: "loop e u = (None, shutdown (sendCompletedMessage e (conditionalPause u)))
      \<and> isRunning (conditionalPause u)"
    if "isRunning u" "\<not> (mode u = PAUSE_MODE \<and> playbackControl u = AGENT_PAUSE)"
      "getRemainingTasks u = []" for u
  proof -
    have "isRunning (conditionalPause u)"
      using that(1,2) by (simp add: conditionalPause_passes)
    then show ?thesis
      using that(3) by (simp add: loop_completed)
  qed
  have l: "loop e s = (None, shutdown (sendCompletedMessage e (conditionalPause s)))"
    and r: "isRunning (conditionalPause s)"
    using general [OF assms] by simp_all
  have first: "fst (loop e s) = None
    \<and> messages (snd (loop e s))
        = messages s @ [MESSAGE_TYPE_SYSTEM (translate e ''ALL_TASKS_COMPLETETD'' ''errors'')]
    \<and> shutdowns (snd (loop e s)) = shutdowns s + 1
    \<and> numLoops (snd (loop e s)) = numLoops s
    \<and> tasks (snd (loop e s)) = tasks s
    \<and> executions (snd (loop e s)) = executions s"
    using r
    by (simp add: l shutdown_def sendCompletedMessage_def messages_sendMessage
        tasks_sendMessage executions_def isExecuting_def)
  have scenario: "fst (run e (constructor nm gl settings md control webSearch)) = None
         \<and> messages (snd (run e (constructor nm gl settings md control webSearch)))
             = [MESSAGE_TYPE_GOAL gl, MESSAGE_TYPE_THINKING [],
                MESSAGE_TYPE_SYSTEM (translate e ''ALL_TASKS_COMPLETETD'' ''errors'')]
         \<and> shutdowns (snd (run e (constructor nm gl settings md control webSearch))) = 1
         \<and> numLoops (snd (run e (constructor nm gl settings md control webSearch))) = 0
         \<and> tasks (snd (run e (constructor nm gl settings md control webSearch))) = []"
    if md: "md \<noteq> Some PAUSE_MODE" and empty: "getInitialTasks e 0 = Inr []"
  proof -
    let ?c = "constructor nm gl settings md control webSearch"
    let ?b = "startGoal e (?c\<lparr>isRunning := True\<rparr>)"
    have m: "mode ?c = AUTOMATIC_MODE"
      using md by (cases md; cases "the md") (simp_all add: constructor_def given_def Let_def)
    have c: "\<not> isRunning ?c" "messages ?c = []" "tasks ?c = []" "shutdowns ?c = 0"
      "numLoops ?c = 0" "requests ?c = 0" "goal ?c = gl"
      by (simp_all add: constructor_def given_def Let_def)
    have b: "isRunning ?b" "mode ?b = AUTOMATIC_MODE" "tasks ?b = []" "shutdowns ?b = 0"
      "numLoops ?b = 0" "messages ?b = [MESSAGE_TYPE_GOAL gl, MESSAGE_TYPE_THINKING []]"
      using m c empty
      by (simp_all add: startGoal_def Let_def sendGoalMessage_def sendThinkingMessage_def
          messages_sendMessage tasks_sendMessage)
    have p: "conditionalPause ?b = ?b"
      using b(2) by (simp add: conditionalPause_def)
    have "loop e ?b = (None, shutdown (sendCompletedMessage e ?b))"
      using general [of ?b] b by (simp add: getRemainingTasks_def p)
    then have "run e ?c = (None, shutdown (sendCompletedMessage e ?b))"
      using c(1) b(2) by (simp add: run_def shutdown_def sendCompletedMessage_def)
    then show ?thesis
      using b by (simp add: shutdown_def sendCompletedMessage_def messages_sendMessage
          tasks_sendMessage)
  qed
  show ?thesis
    using first scenario by blast
qed

theorem completion_check_shuts_down_witness:
  "isRunning idleAgent
   \<and> \<not> (mode idleAgent = PAUSE_MODE \<and> playbackControl idleAgent = AGENT_PAUSE)
   \<and> getRemainingTasks idleAgent = []
   \<and> getInitialTasks idleBackend 0 = Inr []
   \<and> messages (snd (loop idleBackend idleAgent))
       = [MESSAGE_TYPE_GOAL ''Plan a trip'', MESSAGE_TYPE_THINKING [],
          MESSAGE_TYPE_SYSTEM ''ALL_TASKS_COMPLETETD'']
   \<and> shutdowns (snd (loop idleBackend idleAgent)) = 1
   \<and> numLoops (snd (loop idleBackend idleAgent)) = 0
   \<and> messages (snd (run idleBackend automaticAgent))
       = [MESSAGE_TYPE_GOAL ''Plan a trip'', MESSAGE_TYPE_THINKING [],
          MESSAGE_TYPE_SYSTEM ''ALL_TASKS_COMPLETETD'']
   \<and> shutdowns (snd (run idleBackend automaticAgent)) = 1"
  using completion_check_shuts_down [where s = idleAgent and e = idleBackend and md = None
      and nm = "''trip''" and gl = "''Plan a trip''"
      and settings = "\<lparr>customMaxLoops = Some 1\<rparr>" and control = None and webSearch = False]
  by (simp add: evaluation idleAgent_def)

theorem completion_check_counterexample:
  "isRunning (stepwiseAgent\<lparr>isRunning := True\<rparr>)
   \<and> getRemainingTasks (stepwiseAgent\<lparr>isRunning := True\<rparr>) = []
   \<and> loop idleBackend (stepwiseAgent\<lparr>isRunning := True\<rparr>) = (None, stepwiseAgent)
   \<and> messages stepwiseAgent = [] \<and> shutdowns stepwiseAgent = 0
   \<and> getInitialTasks idleBackend 0 = Inr []
   \<and> messages (snd (run idleBackend stepwiseAgent))
       = [MESSAGE_TYPE_GOAL ''Plan a trip'', MESSAGE_TYPE_THINKING []]
   \<and> shutdowns (snd (run idleBackend stepwiseAgent)) = 0"
  by (simp add: evaluation loop.simps)

text \<open>
  C3. An iteration started in Stepwise mode (\<open>PAUSE_MODE\<close>) with the playback control
  at Pause clears the running flag and returns: the agent and its collaborators are
  otherwise as they were. The loop counter, every task, the messages and the number of
  calls of the shutdown hook are unchanged.
\<close>

theorem pause_check_only_clears_running:
  assumes "mode s = PAUSE_MODE" and "playbackControl s = AGENT_PAUSE"
  shows "loop e s = (None, s\<lparr>isRunning := False\<rparr>)
    \<and> \<not> isRunning (snd (loop e s))
    \<and> numLoops (snd (loop e s)) = numLoops s
    \<and> tasks (snd (loop e s)) = tasks s
    \<and> messages (snd (loop e s)) = messages s
    \<and> shutdowns (snd (loop e s)) = shutdowns s"
  using assms by (simp add: loop_stepwise_pause)

theorem pause_check_only_clears_running_witness:
  "mode (stepwiseAgent\<lparr>isRunning := True\<rparr>) = PAUSE_MODE
   \<and> playbackControl (stepwiseAgent\<lparr>isRunning := True\<rparr>) = AGENT_PAUSE
   \<and> loop tripBackend (stepwiseAgent\<lparr>isRunning := True\<rparr>) = (None, stepwiseAgent)
   \<and> messages (snd (loop tripBackend (stepwiseAgent\<lparr>isRunning := True\<rparr>))) = []
   \<and> shutdowns (snd (loop tripBackend (stepwiseAgent\<lparr>isRunning := True\<rparr>))) = 0"
  using pause_check_only_clears_running [of "stepwiseAgent\<lparr>isRunning := True\<rparr>" tripBackend]
  by (simp add: stepwiseAgent_def constructor_def given_def)

text \<open>
  C4. In Stepwise mode, setting the playback control to Play twice is the same agent as
  setting it once. The pause check consumes the Play: it resets the control to Pause, so
  the iteration that follows pauses. A loop entered with Play announces at most one task
  as executing and raises the loop counter by at most one; when a task is pending and
  the budget allows it, it announces exactly one, and unless a request throws it ends
  paused, with the running flag false.
\<close>

theorem play_authorizes_one_iteration:
  assumes "mode s = PAUSE_MODE"
  shows "updatePlayBackControl AGENT_PLAY (updatePlayBackControl AGENT_PLAY s)
      = updatePlayBackControl AGENT_PLAY s
    \<and> conditionalPause (updatePlayBackControl AGENT_PLAY s)
      = s\<lparr>isRunning := True, playbackControl := AGENT_PAUSE\<rparr>
    \<and> loop e (conditionalPause (updatePlayBackControl AGENT_PLAY s))
      = (None, s\<lparr>isRunning := False, playbackControl := AGENT_PAUSE\<rparr>)
    \<and> playbackControl (snd (loop e (updatePlayBackControl AGENT_PLAY s))) = AGENT_PAUSE
    \<and> executions (snd (loop e (updatePlayBackControl AGENT_PLAY s))) \<le> executions s + 1
    \<and> numLoops (snd (loop e (updatePlayBackControl AGENT_PLAY s))) \<le> numLoops s + 1
    \<and> (getRemainingTasks s \<noteq> [] \<and> \<not> maxLoops e s < int (numLoops s) + 1 \<longrightarrow>
         executions (snd (loop e (updatePlayBackControl AGENT_PLAY s))) = executions s + 1
         \<and> (fst (loop e (updatePlayBackControl AGENT_PLAY s)) = None \<longrightarrow>
              \<not> isRunning (snd (loop e (updatePlayBackControl AGENT_PLAY s)))))"
proof -
  let ?u = "updatePlayBackControl AGENT_PLAY s"
  let ?s1 = "s\<lparr>isRunning := True, playbackControl := AGENT_PAUSE\<rparr>"
  let ?s2 = "(conditionalPause ?u)\<lparr>numLoops := numLoops ?u + 1\<rparr>"
  have twice: "updatePlayBackControl AGENT_PLAY ?u = ?u"
    by (simp add: updatePlayBackControl_def)
  have c: "conditionalPause ?u = ?s1"
    using assms by (simp add: conditionalPause_def updatePlayBackControl_def)
  have again: "loop e (conditionalPause ?u)
      = (None, s\<lparr>isRunning := False, playbackControl := AGENT_PAUSE\<rparr>)"
    using assms loop_stepwise_pause [of ?s1 e] by (simp add: c)
  have u: "numLoops ?u = numLoops s" "maxLoops e ?u = maxLoops e s"
    "getRemainingTasks ?u = getRemainingTasks s" "isRunning (conditionalPause ?u)"
    by (simp_all add: c) (simp_all add: updatePlayBackControl_def maxLoops_def getRemainingTasks_def)
  have rest: "playbackControl (snd (loop e ?u)) = AGENT_PAUSE
    \<and> executions (snd (loop e ?u)) \<le> executions s + 1
    \<and> numLoops (snd (loop e ?u)) \<le> numLoops s + 1
    \<and> (getRemainingTasks s \<noteq> [] \<and> \<not> maxLoops e s < int (numLoops s) + 1 \<longrightarrow>
         executions (snd (loop e ?u)) = executions s + 1
         \<and> (fst (loop e ?u) = None \<longrightarrow> \<not> isRunning (snd (loop e ?u))))"
  proof (cases "getRemainingTasks s \<noteq> [] \<and> \<not> maxLoops e s < int (numLoops s) + 1")
    case False
    then consider "getRemainingTasks s = []"
      | "getRemainingTasks s \<noteq> []" "maxLoops e s < int (numLoops s) + 1"
      by blast
    then show ?thesis
    proof cases
      case 1
      then have "loop e ?u = (None, shutdown (sendCompletedMessage e (conditionalPause ?u)))"
        using u by (simp add: loop_completed)
      then show ?thesis
        using 1 by (simp add: c shutdown_def sendCompletedMessage_def executions_sendMessage
            isExecuting_def)
    next
      case 2
      then have "loop e ?u = (None, shutdown (sendLoopMessage e ?s2))"
        using u loop_exceeded [of ?u e] by simp
      then show ?thesis
        using 2 by (simp add: c u shutdown_def sendLoopMessage_def executions_sendMessage
            isExecuting_def)
    qed
  next
    case True
    define r where "r = fst (perform e ?s2)"
    define s3 where "s3 = snd (perform e ?s2)"
    have p: "perform e ?s2 = (r, s3)"
      by (simp add: r_def s3_def)
    have f3: "mode s3 = PAUSE_MODE" "playbackControl s3 = AGENT_PAUSE"
      "numLoops s3 = numLoops s + 1" "executions s3 = executions s + 1"
      unfolding s3_def using assms True
      by (simp_all add: perform_frame executions_perform c u)
    have it: "loop e ?u = (case (r, s3) of (Some x, s3) \<Rightarrow> (Some x, s3) | (None, s3) \<Rightarrow> loop e s3)"
      using True u loop_iterates [of ?u e] unfolding p by simp
    show ?thesis
    proof (cases r)
      case None
      have "loop e ?u = (None, s3\<lparr>isRunning := False\<rparr>)"
        using f3 by (simp add: it None loop_stepwise_pause)
      then show ?thesis
        using f3 by simp
    next
      case (Some x)
      have "loop e ?u = (Some x, s3)"
        by (simp add: it Some)
      then show ?thesis
        using f3 by simp
    qed
  qed
  show ?thesis
    using twice c again rest by blast
qed

theorem play_authorizes_one_iteration_witness:
  "mode pausedAgent = PAUSE_MODE \<and> getRemainingTasks pausedAgent = [flightTask, hotelTask]
   \<and> \<not> maxLoops tripBackend pausedAgent < int (numLoops pausedAgent) + 1
   \<and> fst (loop tripBackend (updatePlayBackControl AGENT_PLAY pausedAgent)) = None
   \<and> executions (snd (loop tripBackend (updatePlayBackControl AGENT_PLAY pausedAgent))) = 1
   \<and> \<not> isRunning (snd (loop tripBackend (updatePlayBackControl AGENT_PLAY pausedAgent)))
   \<and> playbackControl (snd (loop tripBackend (updatePlayBackControl AGENT_PLAY pausedAgent)))
       = AGENT_PAUSE"
  using play_authorizes_one_iteration [of pausedAgent tripBackend]
  by (simp add: evaluation loop.simps)

text \<open>
  C5. What the constructor does with the playback control: in Stepwise mode a given
  Play becomes Pause (a given Pause stays Pause); in Automatic mode with no control
  given the control is Play, and with Play given it is Pause.
\<close>

theorem constructor_ignores_given_control:
  "playbackControl (constructor nm gl settings (Some PAUSE_MODE) (Some AGENT_PLAY) webSearch)
     = AGENT_PAUSE
   \<and> playbackControl (constructor nm gl settings (Some PAUSE_MODE) (Some AGENT_PAUSE) webSearch)
     = AGENT_PAUSE
   \<and> playbackControl (constructor nm gl settings (Some AUTOMATIC_MODE) None webSearch)
     = AGENT_PLAY
   \<and> playbackControl (constructor nm gl settings (Some AUTOMATIC_MODE) (Some AGENT_PLAY) webSearch)
     = AGENT_PAUSE"
  by (simp add: constructor_def given_def)

text \<open>
  C6. What the classification of a failed first request gives for status 429: the key of
  the generic access error, not the one of the exceeded quota. The run on the example
  shows the message that is emitted, and that the loop is entered after the failure: it
  finds no pending task and emits the completion notice.
\<close>

theorem quota_error_classified_as_access_error:
  "getMessageFromError e (AxiosError (Some 429))
     = translate e ''ERROR_ACCESSING_OPENAI_API_KEY'' ''errors''
   \<and> getInitialTasks quotaBackend 0 = Inl (AxiosError (Some 429))
   \<and> messages (snd (run quotaBackend automaticAgent))
       = [MESSAGE_TYPE_GOAL ''Plan a trip'', MESSAGE_TYPE_THINKING [],
          MESSAGE_TYPE_SYSTEM ''ERROR_ACCESSING_OPENAI_API_KEY'',
          MESSAGE_TYPE_SYSTEM ''ALL_TASKS_COMPLETETD'']"
  by (simp add: evaluation loop.simps)




text \<open>
  C8. A run of an agent in Automatic mode whose first request fails calls the shutdown
  hook twice: once in the \<open>catch\<close> of \<open>startGoal\<close>, once more when the loop, entered
  all the same, finds no pending task. \<open>stopAgent\<close> after that calls it a third time.
\<close>

theorem shutdown_hook_called_twice:
  "getInitialTasks quotaBackend 0 = Inl (AxiosError (Some 429))
   \<and> shutdowns automaticAgent = 0
   \<and> shutdowns (startGoal quotaBackend (automaticAgent\<lparr>isRunning := True\<rparr>)) = 1
   \<and> shutdowns (snd (run quotaBackend automaticAgent)) = 2
   \<and> shutdowns (stopAgent quotaBackend (snd (run quotaBackend automaticAgent))) = 3"
  by (simp add: evaluation loop.simps stopAgent_def sendManualShutdownMessage_def)

text \<open>
  C9, as amended. \<open>run\<close> performs the goal bootstrap exactly when the running flag is
  false on entry: then it is the bootstrap followed by a \<open>run\<close> with the flag true, the
  goal is announced once more than before and the initial decomposition is requested
  once more than before. With the flag true on entry, \<open>run\<close> is the loop followed by
  the pause hook: the goal is not announced and the decomposition is not requested. A
  new agent has the flag false, so its first \<open>run\<close> announces the goal once and requests
  the decomposition once. A Stepwise pause clears the flag, so a \<open>run\<close> after it repeats
  the bootstrap unless \<open>updateIsRunning(true)\<close> comes first, as the counterexample shows.
\<close>

theorem bootstrap_when_not_running:
  "(\<not> isRunning s \<longrightarrow>
      run e s = run e (startGoal e (s\<lparr>isRunning := True\<rparr>))
      \<and> goals (snd (run e s)) = goals s + 1
      \<and> decompositions (snd (run e s)) = decompositions s + 1)
   \<and> (isRunning s \<longrightarrow>
      run e s =
        (case loop e s of
           (Some x, s2) \<Rightarrow> (Some x, s2)
         | (None, s2) \<Rightarrow>
             (None, if mode s2 = PAUSE_MODE \<and> \<not> isRunning s2
                    then handlePause (playbackControl s2) s2 else s2))
      \<and> goals (snd (run e s)) = goals s
      \<and> decompositions (snd (run e s)) = decompositions s)
   \<and> goals (constructor nm gl settings md control webSearch) = 0
   \<and> decompositions (constructor nm gl settings md control webSearch) = 0
   \<and> goals (snd (run e (constructor nm gl settings md control webSearch))) = 1
   \<and> decompositions (snd (run e (constructor nm gl settings md control webSearch))) = 1"
proof -
  have a: "goals (snd (run e s)) = goals s" if "isRunning s" for s
    using that goals_run_finish [of e s] by (simp add: run_def)
  have b: "run e s = run e (startGoal e (s\<lparr>isRunning := True\<rparr>))" if "\<not> isRunning s" for s
    using that by (simp add: run_def)
  have c: "goals (snd (run e s)) = goals s + 1" if "\<not> isRunning s" for s
    using that a [of "startGoal e (s\<lparr>isRunning := True\<rparr>)"]
    by (simp add: b goals_startGoal)
  have d: "\<not> isRunning (constructor nm gl settings md control webSearch)"
    "goals (constructor nm gl settings md control webSearch) = 0"
    "decompositions (constructor nm gl settings md control webSearch) = 0"
    by (simp_all add: constructor_def given_def goals_def Let_def)
  have e1: "decompositions (snd (run e s)) = decompositions s + 1" if "\<not> isRunning s" for s
    using that by (simp add: observed_run)
  have e2: "decompositions (snd (run e s)) = decompositions s" if "isRunning s" for s
    using that by (simp add: observed_run)
  have first: "\<not> isRunning s \<longrightarrow>
      run e s = run e (startGoal e (s\<lparr>isRunning := True\<rparr>))
      \<and> goals (snd (run e s)) = goals s + 1
      \<and> decompositions (snd (run e s)) = decompositions s + 1"
    using b [of s] c [of s] e1 [of s] by blast
  have later: "isRunning s \<longrightarrow>
      run e s =
        (case loop e s of
           (Some x, s2) \<Rightarrow> (Some x, s2)
         | (None, s2) \<Rightarrow>
             (None, if mode s2 = PAUSE_MODE \<and> \<not> isRunning s2
                    then handlePause (playbackControl s2) s2 else s2))
      \<and> goals (snd (run e s)) = goals s
      \<and> decompositions (snd (run e s)) = decompositions s"
    using run_running [of s e] a [of s] e2 [of s] by blast
  have new: "goals (snd (run e (constructor nm gl settings md control webSearch))) = 1"
    "decompositions (snd (run e (constructor nm gl settings md control webSearch))) = 1"
    using c [OF d(1)] e1 [OF d(1)] d(2,3) by simp_all
  show ?thesis
    using first later d(2,3) new by blast
qed

theorem bootstrap_when_not_running_witness:
  "\<not> isRunning pausedAgent \<and> goals pausedAgent = 1 \<and> decompositions pausedAgent = 1
   \<and> goals (snd (run tripBackend pausedAgent)) = 2
   \<and> decompositions (snd (run tripBackend pausedAgent)) = 2
   \<and> isRunning (updateIsRunning True pausedAgent)
   \<and> goals (snd (run tripBackend (updateIsRunning True pausedAgent))) = 1
   \<and> decompositions (snd (run tripBackend (updateIsRunning True pausedAgent))) = 1
   \<and> length (tasks (snd (run tripBackend (updateIsRunning True pausedAgent)))) = 2"
  using bootstrap_when_not_running [of pausedAgent tripBackend]
    bootstrap_when_not_running [of "updateIsRunning True pausedAgent" tripBackend]
  by (simp add: evaluation loop.simps)

theorem bootstrap_repeated_counterexample:
  "goals (snd (run tripBackend stepwiseAgent)) = 1
   \<and> goals (snd (run tripBackend (snd (run tripBackend stepwiseAgent)))) = 2
   \<and> decompositions (snd (run tripBackend stepwiseAgent)) = 1
   \<and> decompositions (snd (run tripBackend (snd (run tripBackend stepwiseAgent)))) = 2
   \<and> requests (snd (run tripBackend stepwiseAgent)) = 1
   \<and> requests (snd (run tripBackend (snd (run tripBackend stepwiseAgent)))) = 2
   \<and> length (tasks (snd (run tripBackend (snd (run tripBackend stepwiseAgent))))) = 4"
  by (simp add: evaluation loop.simps)

text \<open>
  C10. \<open>sendMessage\<close> delivers a message exactly when the running flag is true. So
  \<open>stopAgent\<close> on an agent whose flag is already false emits no manual-shutdown notice
  and still calls the shutdown hook, and after \<open>stopAgent\<close> has cleared the flag every
  message is dropped. Over every method of the agent: a new agent has received no
  message, and \<open>run\<close>, \<open>loop\<close>, the bootstrap, an iteration, \<open>stopAgent\<close>,
  \<open>onApiError\<close>, the two setters and every \<open>send\<close> method keep it true that each
  message the Event Sink has received was handed over while the flag was true. With the
  flag false, the bootstrap, an iteration, the follow-up block and \<open>onApiError\<close> deliver
  nothing, and a loop whose pause check leaves the flag false delivers nothing.
\<close>

theorem messages_need_running_flag:
  "messages (sendMessage m s) = (if isRunning s then messages s @ [m] else messages s)
   \<and> (\<not> isRunning s \<longrightarrow>
        sendMessage m s = s
        \<and> messages (stopAgent e s) = messages s
        \<and> shutdowns (stopAgent e s) = shutdowns s + 1)
   \<and> \<not> isRunning (stopAgent e s)
   \<and> sendMessage m (stopAgent e s) = stopAgent e s
   \<and> deliveredWhile (sendMessage m s) = deliveredWhile s @ (if isRunning s then [True] else [])
   \<and> guarded (constructor nm gl settings md control webSearch)
   \<and> (guarded s \<longrightarrow>
        guarded (snd (run e s)) \<and> guarded (snd (loop e s)) \<and> guarded (startGoal e s)
        \<and> guarded (snd (perform e s)) \<and> guarded (stopAgent e s)
        \<and> guarded (snd (onApiError e x s))
        \<and> guarded (updateIsRunning b s) \<and> guarded (updatePlayBackControl pc s)
        \<and> guarded (sendMessage m s) \<and> guarded (sendGoalMessage s)
        \<and> guarded (sendLoopMessage e s) \<and> guarded (sendManualShutdownMessage e s)
        \<and> guarded (sendCompletedMessage e s) \<and> guarded (sendAnalysisMessage a s)
        \<and> guarded (sendThinkingMessage s) \<and> guarded (sendErrorMessage err s))
   \<and> (\<not> isRunning s \<longrightarrow>
        messages (startGoal e s) = messages s
        \<and> messages (snd (perform e s)) = messages s
        \<and> messages (addNewTasks e t r s) = messages s
        \<and> messages (snd (onApiError e x s)) = messages s)
   \<and> (\<not> isRunning (conditionalPause s) \<longrightarrow> messages (snd (loop e s)) = messages s)"
proof -
  have old: "messages (sendMessage m s) = (if isRunning s then messages s @ [m] else messages s)
   \<and> (\<not> isRunning s \<longrightarrow>
        sendMessage m s = s
        \<and> messages (stopAgent e s) = messages s
        \<and> shutdowns (stopAgent e s) = shutdowns s + 1)
   \<and> \<not> isRunning (stopAgent e s)
   \<and> sendMessage m (stopAgent e s) = stopAgent e s"
    by (simp add: sendMessage_def renderMessage_def stopAgent_def shutdown_def
        sendManualShutdownMessage_def)
  have fresh: "guarded (constructor nm gl settings md control webSearch)"
    by (simp add: guarded_def constructor_def Let_def)
  have kept: "guarded (snd (run e s)) = guarded s" "guarded (snd (loop e s)) = guarded s"
    "guarded (startGoal e s) = guarded s" "guarded (snd (perform e s)) = guarded s"
    by (simp_all add: observed_run observed_loop observed_startGoal observed_perform)
  have idle: "messages (startGoal e s) = messages s
        \<and> messages (snd (perform e s)) = messages s
        \<and> messages (addNewTasks e t r s) = messages s
        \<and> messages (snd (onApiError e x s)) = messages s" if "\<not> isRunning s"
    using that by (simp add: idle_messages idle_perform)
  show ?thesis
    using old fresh kept idle idle_loop [of s e]
    by (simp add: deliveredWhile_sendMessage)
qed

theorem messages_need_running_flag_witness:
  "\<not> isRunning stepwiseAgent
   \<and> sendMessage (MESSAGE_TYPE_THINKING []) stepwiseAgent = stepwiseAgent
   \<and> messages (stopAgent tripBackend stepwiseAgent) = []
   \<and> shutdowns (stopAgent tripBackend stepwiseAgent) = 1
   \<and> messages (startGoal tripBackend stepwiseAgent) = []
   \<and> messages (snd (perform tripBackend stepwiseAgent)) = []
   \<and> messages (snd (onApiError tripBackend (AxiosError (Some 429)) stepwiseAgent)) = []
   \<and> \<not> isRunning (conditionalPause stepwiseAgent)
   \<and> messages (snd (loop tripBackend stepwiseAgent)) = []
   \<and> guarded stepwiseAgent
   \<and> guarded (snd (run tripBackend stepwiseAgent))
   \<and> length (messages (snd (run tripBackend stepwiseAgent))) = 4
   \<and> deliveredWhile (snd (run tripBackend stepwiseAgent)) = [True, True, True, True]"
  using messages_need_running_flag [where m = "MESSAGE_TYPE_THINKING []" and s = stepwiseAgent
      and e = tripBackend and x = "AxiosError (Some 429)"]
  by (simp add: evaluation guarded_def loop.simps)

end
